theory Spec2Isabelle
  imports Main "HOL-Library.Word"
begin

section \<open>Values of the source language\<close>

text \<open>
  The program is TypeScript (\<^verbatim>\<open>src/main.ts\<close>). A string of the source is a sequence of
  UTF-16 code units and \<^verbatim>\<open>.length\<close> counts code units, so a string is a list of 16-bit
  words. \<open>ascii\<close> writes a string literal of the source.
\<close>

type_synonym jsstring = "16 word list"

definition ascii :: "string \<Rightarrow> jsstring" where
  "ascii s = map (\<lambda>c. of_nat (of_char c)) s"

text \<open>
  A \<^verbatim>\<open>number\<close> of the source is an IEEE double. The numbers of this program (traffic
  weights, ports, replica counts) are integers, so a number is modelled by its integer value;
  a weight that is not an integer is outside the model. An optional field (\<^verbatim>\<open>f?: T\<close>)
  is an \<open>option\<close>: \<open>None\<close> is \<^verbatim>\<open>undefined\<close>.

  Line 160 adds numbers, and the sum of two doubles is the exact sum rounded to the nearest
  double, ties to the even significand. Every integer below \<open>2 ^ 53\<close> in magnitude is a
  double. A larger magnitude \<open>m\<close> of \<open>bitlen m\<close> binary digits lies between doubles that
  are \<open>2 ^ (bitlen m - 53)\<close> apart; a rounded magnitude of \<open>2 ^ 1024\<close> or more is an
  infinity. Adding \<^verbatim>\<open>undefined\<close> or \<open>NaN\<close> gives \<open>NaN\<close>.
\<close>

datatype jsnum = Num int | PosInf | NegInf | NaN

fun bitlen :: "nat \<Rightarrow> nat" where
  "bitlen n = (if n = 0 then 0 else Suc (bitlen (n div 2)))"

declare bitlen.simps [simp del]

definition round_magnitude :: "nat \<Rightarrow> nat" where
  "round_magnitude m =
     (let k = bitlen m - 53;
          q = m div 2 ^ k;
          r = m mod 2 ^ k
      in (if 2 ^ k < 2 * r \<or> (2 * r = 2 ^ k \<and> odd q) then q + 1 else q) * 2 ^ k)"

definition overflow_threshold :: nat where
  "overflow_threshold = 2 ^ 1024"

definition round_to_double :: "int \<Rightarrow> jsnum" where
  "round_to_double s =
     (if nat \<bar>s\<bar> < 2 ^ 53 then Num s
      else
        (let v = round_magnitude (nat \<bar>s\<bar>) in
          if overflow_threshold \<le> v then (if s < 0 then NegInf else PosInf)
          else Num (if s < 0 then - int v else int v)))"

text \<open>
  \<^verbatim>\<open>prev + curr.weight\<close> of line 160. The weight is \<^verbatim>\<open>undefined\<close> or a finite number; an
  infinite sum stays what it is when a finite number is added.
\<close>

definition js_add :: "jsnum \<Rightarrow> int option \<Rightarrow> jsnum" where
  "js_add prev w =
     (case w of
        None \<Rightarrow> NaN
      | Some b \<Rightarrow>
         (case prev of
            NaN \<Rightarrow> NaN
          | PosInf \<Rightarrow> PosInf
          | NegInf \<Rightarrow> NegInf
          | Num a \<Rightarrow> round_to_double (a + b)))"

section \<open>Data model\<close>

text \<open>
  \<^verbatim>\<open>TrafficWeight\<close>, \<^verbatim>\<open>ContainerApp\<close> and \<^verbatim>\<open>Revision\<close> are types of the SDK
  (\<^verbatim>\<open>@azure/arm-appcontainers\<close>); the records hold the fields \<^verbatim>\<open>main.ts\<close> reads or writes.
\<close>

record TrafficWeight =
  revisionName :: "jsstring option"
  weight :: "int option"
  latestRevision :: "bool option"

text \<open>
  Objects are references in the source, and the filter callback of lines 46-53 assigns to
  fields of the entries of the snapshot it was given. The entries therefore live in a store:
  an array of entries is a list of addresses, and the store maps an address to the object.
\<close>

type_synonym addr = nat
type_synonym heap = "addr \<Rightarrow> TrafficWeight"

typedecl Dapr
typedecl CustomDomain

record Ingress =
  external :: "bool option"
  targetPort :: "int option"
  traffic :: "addr list option"
  customDomains :: "CustomDomain list option"

record Configuration =
  ingress :: "Ingress option"
  dapr :: "Dapr option"

record Scale =
  maxReplicas :: "int option"
  minReplicas :: "int option"

record Template =
  scale :: "Scale option"

record ContainerApp =
  configuration :: "Configuration option"
  latestRevisionName :: "jsstring option"
  location :: jsstring
  managedEnvironmentId :: "jsstring option"
  template :: "Template option"

record Revision =
  active :: "bool option"
  fqdn :: "jsstring option"

text \<open>\<^verbatim>\<open>TaskParameters\<close> (\<^verbatim>\<open>./taskparameters\<close>): the fields \<^verbatim>\<open>main.ts\<close> reads.\<close>

record TaskParameters =
  resourceGroup :: jsstring
  containerAppName :: jsstring
  revisionNameSuffix :: jsstring
  imageName :: jsstring
  subscriptionId :: jsstring
  deactivateRevisionMode :: bool

subsection \<open>The desired state (lines 60-119)\<close>

record ingressConfig =
  ic_external :: "bool option"
  ic_targetPort :: "int option"
  ic_traffic :: "TrafficWeight list"
  ic_customDomains :: "CustomDomain list"

record scaleRule =
  rule_name :: jsstring
  custom_type :: jsstring
  concurrentRequests :: jsstring

record scaleConfig =
  sc_maxReplicas :: "int option"
  sc_minReplicas :: "int option"
  sc_rules :: "scaleRule list"

text \<open>\<open>nc_ingress = None\<close> is the object after \<^verbatim>\<open>delete networkConfig.ingress\<close>: the key is gone.\<close>

record networkConfig =
  nc_dapr :: "Dapr option"
  nc_ingress :: "ingressConfig option"
  nc_activeRevisionsMode :: jsstring

record containerConfig =
  container_name :: jsstring
  container_image :: jsstring

record envelopeTemplate =
  et_containers :: "containerConfig list"
  et_scale :: scaleConfig
  et_revisionSuffix :: jsstring

record containerAppEnvelope =
  env_configuration :: networkConfig
  env_location :: jsstring
  env_managedEnvironmentId :: "jsstring option"
  env_template :: envelopeTemplate

subsection \<open>Errors, the control-plane client and the result of a run\<close>

text \<open>
  Every \<^verbatim>\<open>throw new Error(...)\<close> of the source is one constructor, named as the spec's
  taxonomy names it: \<open>InvalidConfiguration\<close> is thrown at line 28, \<open>DeploymentFailed\<close> at
  line 136, \<open>UnsafeDeactivation\<close> at line 161, \<open>DeactivationNotConfirmed\<close> at line 173.
  \<open>TypeError\<close> is what the runtime throws on a property read of \<^verbatim>\<open>undefined\<close>, and
  \<open>Upstream\<close> is an error thrown by a call of the client, with its message.
\<close>

datatype error =
    InvalidConfiguration
  | DeploymentFailed
  | UnsafeDeactivation
  | DeactivationNotConfirmed
  | TypeError
  | Upstream jsstring

text \<open>
  The client is a collaborator: each of its four operations is a function from the arguments
  to what the call does, throw (\<open>Inl\<close> with the message of the error) or return. A run
  calls each operation at most once, so this is every behaviour of a client the run can
  observe. \<^verbatim>\<open>get\<close> returns a snapshot whose traffic entries are objects: the snapshot
  comes with their store. \<^verbatim>\<open>getRevision\<close> may return nothing: line 136 tests for it.
\<close>

record Client =
  containerApps_get :: "jsstring \<Rightarrow> jsstring \<Rightarrow> jsstring + (ContainerApp \<times> heap)"
  containerApps_beginUpdateAndWait ::
    "jsstring \<Rightarrow> jsstring \<Rightarrow> containerAppEnvelope \<Rightarrow> jsstring + unit"
  containerAppsRevisions_getRevision ::
    "jsstring \<Rightarrow> jsstring \<Rightarrow> jsstring \<Rightarrow> jsstring + Revision option"
  containerAppsRevisions_deactivateRevision ::
    "jsstring \<Rightarrow> jsstring \<Rightarrow> jsstring \<Rightarrow> jsstring + unit"

datatype Call =
    Get jsstring jsstring
  | BeginUpdateAndWait jsstring jsstring containerAppEnvelope
  | GetRevision jsstring jsstring jsstring
  | DeactivateRevision jsstring jsstring jsstring

text \<open>
  What a run leaves behind: the error given to \<^verbatim>\<open>core.setFailed\<close> (line 147), the output
  \<^verbatim>\<open>app-url\<close> (line 140), and the calls made on the client, in order.
\<close>

record RunResult =
  failed :: "error option"
  app_url :: "jsstring option"
  calls :: "Call list"

section \<open>Naming and validation (lines 11, 27-28)\<close>

definition MAX_REVISION_NAME_LENGTH :: nat where
  "MAX_REVISION_NAME_LENGTH = 63"

definition revisionName_of :: "TaskParameters \<Rightarrow> jsstring" where
  "revisionName_of taskParams =
     containerAppName taskParams @ ascii ''--'' @ revisionNameSuffix taskParams"

section \<open>Traffic reconciliation (lines 46-58)\<close>

text \<open>
  \<^verbatim>\<open>Array.prototype.filter\<close> with the callback of lines 46-53, over the store. The callback
  returns false for an entry whose weight is \<^verbatim>\<open>undefined\<close> or 0; for any other entry it
  returns true, after it has assigned \<^verbatim>\<open>latestRevision = false\<close> and
  \<^verbatim>\<open>revisionName = currentAppProperty.latestRevisionName\<close> to the entry itself when the
  entry's \<^verbatim>\<open>latestRevision\<close> is true. The result is the new array and the store.
\<close>

fun filter_traffic :: "jsstring option \<Rightarrow> heap \<Rightarrow> addr list \<Rightarrow> addr list \<times> heap" where
  "filter_traffic latest h [] = ([], h)"
| "filter_traffic latest h (a # as) =
     (if weight (h a) = None \<or> weight (h a) = Some 0 then filter_traffic latest h as
      else
        (let h1 = (if latestRevision (h a) = Some True
                   then h(a := (h a)\<lparr>revisionName := latest, latestRevision := Some False\<rparr>)
                   else h);
             r = filter_traffic latest h1 as
         in (a # fst r, snd r)))"

text \<open>
  Lines 46-58. The reads \<^verbatim>\<open>configuration!.ingress!.traffic!\<close> are unchecked: \<^verbatim>\<open>!\<close> is erased
  by the compiler, and a missing object makes the next property read or the call of
  \<^verbatim>\<open>.filter\<close> throw. \<^verbatim>\<open>filter\<close> always returns an array, so the \<^verbatim>\<open>|| []\<close> of line 53 never
  applies. The pushed entry is a new object, which no snapshot refers to; the resulting
  array is returned by value, as it is serialised when it is submitted.
\<close>

definition reconcile ::
  "heap \<Rightarrow> ContainerApp \<Rightarrow> jsstring \<Rightarrow> error + (TrafficWeight list \<times> heap)" where
  "reconcile h currentAppProperty newName =
     (case configuration currentAppProperty of
        None \<Rightarrow> Inl TypeError
      | Some c \<Rightarrow>
         (case ingress c of
            None \<Rightarrow> Inl TypeError
          | Some i \<Rightarrow>
             (case traffic i of
                None \<Rightarrow> Inl TypeError
              | Some as \<Rightarrow>
                 (let r = filter_traffic (latestRevisionName currentAppProperty) h as
                  in Inr (map (snd r) (fst r) @
                          [\<lparr>revisionName = Some newName, weight = Some 0,
                            latestRevision = Some False\<rparr>],
                          snd r)))))"

section \<open>The desired state (lines 60-119)\<close>

definition httpscalingrule :: scaleRule where
  "httpscalingrule =
     \<lparr>rule_name = ascii ''httpscalingrule'', custom_type = ascii ''http'',
      concurrentRequests = ascii ''50''\<rparr>"

text \<open>
  Lines 60-70. When these lines run, lines 46-53 have read \<^verbatim>\<open>configuration\<close> and
  \<^verbatim>\<open>ingress\<close> already; the model checks them again, so that it stands on its own.
  \<^verbatim>\<open>customDomains! || []\<close> replaces a missing list by the empty one.
\<close>

definition ingressConfig_of :: "ContainerApp \<Rightarrow> TrafficWeight list \<Rightarrow> error + ingressConfig" where
  "ingressConfig_of currentAppProperty traffics =
     (case configuration currentAppProperty of
        None \<Rightarrow> Inl TypeError
      | Some c \<Rightarrow>
         (case ingress c of
            None \<Rightarrow> Inl TypeError
          | Some i \<Rightarrow>
             Inr \<lparr>ic_external = external i, ic_targetPort = targetPort i,
                  ic_traffic = traffics,
                  ic_customDomains = (case customDomains i of None \<Rightarrow> [] | Some ds \<Rightarrow> ds)\<rparr>))"

text \<open>Lines 72-88: \<^verbatim>\<open>template!.scale!\<close> is read unchecked.\<close>

definition scaleConfig_of :: "ContainerApp \<Rightarrow> error + scaleConfig" where
  "scaleConfig_of currentAppProperty =
     (case template currentAppProperty of
        None \<Rightarrow> Inl TypeError
      | Some t \<Rightarrow>
         (case scale t of
            None \<Rightarrow> Inl TypeError
          | Some s \<Rightarrow>
             Inr \<lparr>sc_maxReplicas = maxReplicas s, sc_minReplicas = minReplicas s,
                  sc_rules = [httpscalingrule]\<rparr>))"

text \<open>
  Lines 90-101: the ingress key is deleted when \<^verbatim>\<open>external\<close> is false or \<^verbatim>\<open>undefined\<close>.
\<close>

definition networkConfig_of :: "ContainerApp \<Rightarrow> ingressConfig \<Rightarrow> error + networkConfig" where
  "networkConfig_of currentAppProperty ingressConfig =
     (case configuration currentAppProperty of
        None \<Rightarrow> Inl TypeError
      | Some c \<Rightarrow>
         Inr \<lparr>nc_dapr = dapr c,
              nc_ingress =
                (if ic_external ingressConfig = Some False \<or> ic_external ingressConfig = None
                 then None else Some ingressConfig),
              nc_activeRevisionsMode = ascii ''Multiple''\<rparr>)"

text \<open>Lines 103-119.\<close>

definition containerAppEnvelope_of ::
  "TaskParameters \<Rightarrow> ContainerApp \<Rightarrow> networkConfig \<Rightarrow> scaleConfig \<Rightarrow> containerAppEnvelope" where
  "containerAppEnvelope_of taskParams currentAppProperty networkConfig scaleConfig =
     \<lparr>env_configuration = networkConfig,
      env_location = location currentAppProperty,
      env_managedEnvironmentId = managedEnvironmentId currentAppProperty,
      env_template =
        \<lparr>et_containers =
           [\<lparr>container_name = containerAppName taskParams,
             container_image = imageName taskParams\<rparr>],
         et_scale = scaleConfig,
         et_revisionSuffix = revisionNameSuffix taskParams\<rparr>\<rparr>"

text \<open>Lines 72-119 in their order, from the ingress block of lines 60-70.\<close>

definition envelope_of ::
  "TaskParameters \<Rightarrow> ContainerApp \<Rightarrow> ingressConfig \<Rightarrow> error + containerAppEnvelope" where
  "envelope_of taskParams currentAppProperty ingressConfig =
     (case scaleConfig_of currentAppProperty of
        Inl e \<Rightarrow> Inl e
      | Inr scaleConfig \<Rightarrow>
         (case networkConfig_of currentAppProperty ingressConfig of
            Inl e \<Rightarrow> Inl e
          | Inr networkConfig \<Rightarrow>
             Inr (containerAppEnvelope_of taskParams currentAppProperty
                    networkConfig scaleConfig)))"

text \<open>Lines 60-119: the envelope built from a snapshot and a reconciled traffic list.\<close>

definition build_envelope ::
  "TaskParameters \<Rightarrow> ContainerApp \<Rightarrow> TrafficWeight list \<Rightarrow> error + containerAppEnvelope" where
  "build_envelope taskParams currentAppProperty traffics =
     (case ingressConfig_of currentAppProperty traffics of
        Inl e \<Rightarrow> Inl e
      | Inr ingressConfig \<Rightarrow> envelope_of taskParams currentAppProperty ingressConfig)"

section \<open>Deployment (lines 46-143)\<close>

text \<open>
  The state threaded through a run is the list of calls made so far; a step returns its
  result, or the error it throws, and the list. The result of a deployment is the URL it
  emits, if any: line 138 emits one when \<^verbatim>\<open>external\<close> is true and \<^verbatim>\<open>fqdn\<close> is truthy
  (present and not the empty string).
\<close>

definition deploy ::
  "Client \<Rightarrow> TaskParameters \<Rightarrow> ContainerApp \<Rightarrow> heap \<Rightarrow> Call list
     \<Rightarrow> (error + jsstring option) \<times> Call list" where
  "deploy client taskParams currentAppProperty h log =
     (let rg = resourceGroup taskParams; app = containerAppName taskParams;
          revisionName = revisionName_of taskParams
      in
       (case reconcile h currentAppProperty revisionName of
          Inl e \<Rightarrow> (Inl e, log)
        | Inr (traffics, h') \<Rightarrow>
       (case ingressConfig_of currentAppProperty traffics of
          Inl e \<Rightarrow> (Inl e, log)
        | Inr ingressConfig \<Rightarrow>
       (case envelope_of taskParams currentAppProperty ingressConfig of
          Inl e \<Rightarrow> (Inl e, log)
        | Inr containerAppEnvelope \<Rightarrow>
       (let log1 = log @ [BeginUpdateAndWait rg app containerAppEnvelope] in
       (case containerApps_beginUpdateAndWait client rg app containerAppEnvelope of
          Inl m \<Rightarrow> (Inl (Upstream m), log1)
        | Inr u \<Rightarrow>
       (let log2 = log1 @ [GetRevision rg app revisionName] in
       (case containerAppsRevisions_getRevision client rg app revisionName of
          Inl m \<Rightarrow> (Inl (Upstream m), log2)
        | Inr None \<Rightarrow> (Inl DeploymentFailed, log2)
        | Inr (Some addedRevision) \<Rightarrow>
           (case fqdn addedRevision of
              None \<Rightarrow> (Inr None, log2)
            | Some f \<Rightarrow>
               (if ic_external ingressConfig = Some True \<and> f \<noteq> []
                then (Inr (Some (ascii ''https://'' @ f @ ascii ''/'')), log2)
                else (Inr None, log2)))))))))))"

section \<open>Deactivation (lines 155-177)\<close>

text \<open>
  Line 157 keeps the entries whose name is the target; line 160 sums their weights with
  \<^verbatim>\<open>reduce\<close> from 0 and throws when there is such an entry and the sum is not 0 (\<open>NaN\<close> is
  not 0). Line 164 requests the deactivation, lines 167-171 read the revision again, and
  line 172 reads \<^verbatim>\<open>.active\<close> of what the read returned.
\<close>

definition weight_sum :: "TrafficWeight list \<Rightarrow> jsnum" where
  "weight_sum targetRevisions =
     foldl (\<lambda>prev curr. js_add prev (weight curr)) (Num 0) targetRevisions"

definition deactivateRevision ::
  "Client \<Rightarrow> jsstring \<Rightarrow> jsstring \<Rightarrow> TrafficWeight list \<Rightarrow> jsstring \<Rightarrow> Call list
     \<Rightarrow> (error + unit) \<times> Call list" where
  "deactivateRevision client rg app traffics target log =
     (let targetRevisions = filter (\<lambda>r. revisionName r = Some target) traffics in
       if length targetRevisions > 0
          \<and> weight_sum targetRevisions \<noteq> Num 0
       then (Inl UnsafeDeactivation, log)
       else
        (let log1 = log @ [DeactivateRevision rg app target] in
         (case containerAppsRevisions_deactivateRevision client rg app target of
            Inl m \<Rightarrow> (Inl (Upstream m), log1)
          | Inr u \<Rightarrow>
             (let log2 = log1 @ [GetRevision rg app target] in
              (case containerAppsRevisions_getRevision client rg app target of
                 Inl m \<Rightarrow> (Inl (Upstream m), log2)
               | Inr None \<Rightarrow> (Inl TypeError, log2)
               | Inr (Some deactiveRevision) \<Rightarrow>
                  (if active deactiveRevision = Some True
                   then (Inl DeactivationNotConfirmed, log2)
                   else (Inr (), log2)))))))"

section \<open>The run (lines 24-148)\<close>

text \<open>Line 40: \<^verbatim>\<open>configuration?.ingress?.traffic || []\<close>.\<close>

definition traffic_or_empty :: "ContainerApp \<Rightarrow> addr list" where
  "traffic_or_empty currentAppProperty =
     (case configuration currentAppProperty of
        None \<Rightarrow> []
      | Some c \<Rightarrow>
         (case ingress c of
            None \<Rightarrow> []
          | Some i \<Rightarrow> (case traffic i of None \<Rightarrow> [] | Some as \<Rightarrow> as)))"

text \<open>
  \<open>main\<close> is the run from line 24 on, for the task parameters that lines 22-23 obtained.
  The \<^verbatim>\<open>catch\<close> of lines 145-148 turns whatever was thrown into the failure of the run.
  The user-agent variable that lines 17-20 export and lines 149-152 reset is no part of the
  result; constructing the credential and the client (lines 24 and 31) calls nothing.
\<close>

definition main :: "Client \<Rightarrow> TaskParameters \<Rightarrow> RunResult" where
  "main client taskParams =
     (let revisionName = revisionName_of taskParams in
       if length revisionName > MAX_REVISION_NAME_LENGTH
       then \<lparr>failed = Some InvalidConfiguration, app_url = None, calls = []\<rparr>
       else
        (let rg = resourceGroup taskParams; app = containerAppName taskParams;
             log1 = [Get rg app]
         in
          (case containerApps_get client rg app of
             Inl m \<Rightarrow> \<lparr>failed = Some (Upstream m), app_url = None, calls = log1\<rparr>
           | Inr (currentAppProperty, h) \<Rightarrow>
              (if deactivateRevisionMode taskParams
               then
                (case deactivateRevision client rg app
                        (map h (traffic_or_empty currentAppProperty))
                        (revisionName_of taskParams) log1 of
                   (Inl e, log2) \<Rightarrow> \<lparr>failed = Some e, app_url = None, calls = log2\<rparr>
                 | (Inr u, log2) \<Rightarrow> \<lparr>failed = None, app_url = None, calls = log2\<rparr>)
               else
                (case deploy client taskParams currentAppProperty h log1 of
                   (Inl e, log2) \<Rightarrow> \<lparr>failed = Some e, app_url = None, calls = log2\<rparr>
                 | (Inr url, log2) \<Rightarrow> \<lparr>failed = None, app_url = url, calls = log2\<rparr>)))))"

section \<open>Vocabulary of the properties\<close>

text \<open>
  The words of the specification, as functions on values. An entry is carried over when
  its weight is set and not 0. Pinning resolves a floating alias: the entry gets the name
  of the latest revision and loses its flag. The total weight of a list counts an unset
  weight as 0.
\<close>

definition carried_over :: "TrafficWeight \<Rightarrow> bool" where
  "carried_over t = (weight t \<noteq> None \<and> weight t \<noteq> Some 0)"

definition pinned :: "jsstring option \<Rightarrow> TrafficWeight \<Rightarrow> TrafficWeight" where
  "pinned latest t =
     (if latestRevision t = Some True
      then t\<lparr>revisionName := latest, latestRevision := Some False\<rparr> else t)"

definition resolved_name :: "jsstring option \<Rightarrow> TrafficWeight \<Rightarrow> jsstring option" where
  "resolved_name latest t = (if latestRevision t = Some True then latest else revisionName t)"

definition total_weight :: "TrafficWeight list \<Rightarrow> int" where
  "total_weight ts = sum_list (map (\<lambda>t. case weight t of None \<Rightarrow> 0 | Some w \<Rightarrow> w) ts)"

definition new_entry :: "jsstring \<Rightarrow> TrafficWeight" where
  "new_entry newName =
     \<lparr>revisionName = Some newName, weight = Some 0, latestRevision = Some False\<rparr>"

text \<open>The array \<^verbatim>\<open>traffics\<close> after line 58.\<close>

definition reconciled_traffic ::
  "heap \<Rightarrow> ContainerApp \<Rightarrow> jsstring \<Rightarrow> error + TrafficWeight list" where
  "reconciled_traffic h app newName = map_sum id fst (reconcile h app newName)"

text \<open>The entries of the snapshot's own traffic array, read after line 58.\<close>

definition snapshot_entries_after ::
  "heap \<Rightarrow> ContainerApp \<Rightarrow> jsstring \<Rightarrow> error + TrafficWeight list" where
  "snapshot_entries_after h app newName =
     map_sum id (\<lambda>r. map (snd r) (traffic_or_empty app)) (reconcile h app newName)"

section \<open>Example inputs\<close>

text \<open>A client whose every call throws, for runs that must not reach it.\<close>

definition failing_client :: Client where
  "failing_client =
     \<lparr>containerApps_get = (\<lambda>rg app. Inl (ascii ''get'')),
      containerApps_beginUpdateAndWait = (\<lambda>rg app e. Inl (ascii ''update'')),
      containerAppsRevisions_getRevision = (\<lambda>rg app r. Inl (ascii ''getRevision'')),
      containerAppsRevisions_deactivateRevision = (\<lambda>rg app r. Inl (ascii ''deactivate''))\<rparr>"

text \<open>
  A client that serves one snapshot with its store, accepts the update and the
  deactivation, and answers every read of a revision with the same revision.
\<close>

definition mock_client :: "ContainerApp \<Rightarrow> heap \<Rightarrow> Revision \<Rightarrow> Client" where
  "mock_client snapshot h revision =
     \<lparr>containerApps_get = (\<lambda>rg app. Inr (snapshot, h)),
      containerApps_beginUpdateAndWait = (\<lambda>rg app e. Inr ()),
      containerAppsRevisions_getRevision = (\<lambda>rg app r. Inr (Some revision)),
      containerAppsRevisions_deactivateRevision = (\<lambda>rg app r. Inr ())\<rparr>"

text \<open>A parent name of 60 code units with the suffix \<open>abc1234\<close>: 69 code units in all.\<close>

definition long_params :: TaskParameters where
  "long_params =
     \<lparr>resourceGroup = ascii ''rg'', containerAppName = replicate 60 97,
      revisionNameSuffix = ascii ''abc1234'', imageName = ascii ''img'',
      subscriptionId = ascii ''sub'', deactivateRevisionMode = False\<rparr>"

definition deploy_params :: TaskParameters where
  "deploy_params =
     \<lparr>resourceGroup = ascii ''rg'', containerAppName = ascii ''app'',
      revisionNameSuffix = ascii ''abc1234'', imageName = ascii ''registry/app:sha'',
      subscriptionId = ascii ''sub'', deactivateRevisionMode = False\<rparr>"

definition deactivate_params :: TaskParameters where
  "deactivate_params =
     \<lparr>resourceGroup = ascii ''rg'', containerAppName = ascii ''app'',
      revisionNameSuffix = ascii ''abc123'', imageName = ascii ''ignored'',
      subscriptionId = ascii ''sub'', deactivateRevisionMode = True\<rparr>"

definition active_revision :: Revision where
  "active_revision = \<lparr>active = Some True, fqdn = Some (ascii ''app-abc1234.example.com'')\<rparr>"

definition inactive_revision :: Revision where
  "inactive_revision = \<lparr>active = Some False, fqdn = None\<rparr>"

definition blank :: TrafficWeight where
  "blank = \<lparr>revisionName = None, weight = None, latestRevision = None\<rparr>"

text \<open>
  A store of three entries: a floating alias with weight 60, a stale entry with weight 0,
  and a fixed entry with weight 40.
\<close>

definition ex_heap :: heap where
  "ex_heap = (\<lambda>a. blank)
     (0 := \<lparr>revisionName = None, weight = Some 60, latestRevision = Some True\<rparr>,
      1 := \<lparr>revisionName = Some (ascii ''app--stale''), weight = Some 0,
             latestRevision = Some False\<rparr>,
      2 := \<lparr>revisionName = Some (ascii ''app--pr7''), weight = Some 40,
             latestRevision = None\<rparr>)"

definition ex_ingress :: Ingress where
  "ex_ingress = \<lparr>external = Some True, targetPort = Some 80, traffic = Some [0, 1, 2],
                 customDomains = None\<rparr>"

definition ex_configuration :: Configuration where
  "ex_configuration = \<lparr>ingress = Some ex_ingress, dapr = None\<rparr>"

definition ex_scale :: Scale where
  "ex_scale = \<lparr>maxReplicas = Some 10, minReplicas = Some 0\<rparr>"

definition ex_app :: ContainerApp where
  "ex_app = \<lparr>configuration = Some ex_configuration,
             latestRevisionName = Some (ascii ''app--old1''),
             location = ascii ''eastus'', managedEnvironmentId = None,
             template = Some \<lparr>scale = Some ex_scale\<rparr>\<rparr>"

text \<open>The same snapshot with a traffic array of two entries, of none, and with none.\<close>

definition two_entry_app :: ContainerApp where
  "two_entry_app =
     ex_app\<lparr>configuration :=
              Some (ex_configuration\<lparr>ingress := Some (ex_ingress\<lparr>traffic := Some [0, 1]\<rparr>)\<rparr>)\<rparr>"

definition empty_traffic_app :: ContainerApp where
  "empty_traffic_app =
     ex_app\<lparr>configuration :=
              Some (ex_configuration\<lparr>ingress := Some (ex_ingress\<lparr>traffic := Some []\<rparr>)\<rparr>)\<rparr>"

definition absent_traffic_app :: ContainerApp where
  "absent_traffic_app =
     ex_app\<lparr>configuration :=
              Some (ex_configuration\<lparr>ingress := Some (ex_ingress\<lparr>traffic := None\<rparr>)\<rparr>)\<rparr>"

text \<open>The same snapshot with an ingress that is not external.\<close>

definition internal_app :: ContainerApp where
  "internal_app =
     ex_app\<lparr>configuration :=
              Some (ex_configuration\<lparr>ingress := Some (ex_ingress\<lparr>external := Some False\<rparr>)\<rparr>)\<rparr>"

text \<open>
  A fixed entry for the latest revision beside a floating alias; and the lists the
  reconciler makes of it for a new name and for the name of the latest revision.
\<close>

definition dup_heap :: heap where
  "dup_heap = (\<lambda>a. blank)
     (0 := \<lparr>revisionName = Some (ascii ''app--old1''), weight = Some 50,
             latestRevision = Some False\<rparr>,
      1 := \<lparr>revisionName = None, weight = Some 50, latestRevision = Some True\<rparr>)"

definition dup_out :: "TrafficWeight list" where
  "dup_out =
     [\<lparr>revisionName = Some (ascii ''app--old1''), weight = Some 50,
        latestRevision = Some False\<rparr>,
      \<lparr>revisionName = Some (ascii ''app--old1''), weight = Some 50,
        latestRevision = Some False\<rparr>,
      \<lparr>revisionName = Some (ascii ''app--abc1234''), weight = Some 0,
        latestRevision = Some False\<rparr>]"

text \<open>
  Traffic lists for the deactivation of \<open>app--abc123\<close>: the target carries weight 30,
  weight 0, and no weight at all.
\<close>

definition live_heap :: heap where
  "live_heap = (\<lambda>a. blank)
     (0 := \<lparr>revisionName = Some (ascii ''app--abc123''), weight = Some 30,
             latestRevision = Some False\<rparr>,
      1 := \<lparr>revisionName = Some (ascii ''app--old1''), weight = Some 70,
             latestRevision = Some False\<rparr>)"

definition live_out :: "TrafficWeight list" where
  "live_out =
     [\<lparr>revisionName = Some (ascii ''app--abc123''), weight = Some 30,
        latestRevision = Some False\<rparr>,
      \<lparr>revisionName = Some (ascii ''app--old1''), weight = Some 70,
        latestRevision = Some False\<rparr>,
      \<lparr>revisionName = Some (ascii ''app--abc123''), weight = Some 0,
        latestRevision = Some False\<rparr>]"

definition idle_heap :: heap where
  "idle_heap = (\<lambda>a. blank)
     (0 := \<lparr>revisionName = Some (ascii ''app--abc123''), weight = Some 0,
             latestRevision = Some False\<rparr>,
      1 := \<lparr>revisionName = Some (ascii ''app--old1''), weight = Some 100,
             latestRevision = Some False\<rparr>)"

definition unset_heap :: heap where
  "unset_heap = (\<lambda>a. blank)
     (0 := \<lparr>revisionName = Some (ascii ''app--abc123''), weight = None,
             latestRevision = Some False\<rparr>,
      1 := \<lparr>revisionName = Some (ascii ''app--old1''), weight = Some 100,
             latestRevision = Some False\<rparr>)"

text \<open>
  The end-to-end scenario of the specification: one floating alias with weight 100, the
  latest revision \<open>app--old1\<close>, the suffix \<open>abc1234\<close>.
\<close>

definition scenario_heap :: heap where
  "scenario_heap = (\<lambda>a. blank)
     (0 := \<lparr>revisionName = None, weight = Some 100, latestRevision = Some True\<rparr>)"

definition scenario_app :: ContainerApp where
  "scenario_app =
     ex_app\<lparr>configuration :=
              Some (ex_configuration\<lparr>ingress := Some (ex_ingress\<lparr>traffic := Some [0]\<rparr>)\<rparr>)\<rparr>"

section \<open>The reconciler as a function on values\<close>

lemma carried_over_pinned [simp]: "carried_over (pinned latest t) = carried_over t"
  by (simp add: carried_over_def pinned_def)

lemma pinned_idem [simp]: "pinned latest (pinned latest t) = pinned latest t"
  by (simp add: pinned_def)

lemma weight_pinned [simp]: "weight (pinned latest t) = weight t"
  by (simp add: pinned_def)

lemma latestRevision_pinned: "latestRevision (pinned latest t) \<noteq> Some True"
  by (simp add: pinned_def)

lemma revisionName_pinned: "revisionName (pinned latest t) = resolved_name latest t"
  by (simp add: pinned_def resolved_name_def)

lemma total_weight_Nil [simp]: "total_weight [] = 0"
  by (simp add: total_weight_def)

lemma total_weight_pinned: "total_weight (map (pinned latest) ts) = total_weight ts"
  by (simp add: total_weight_def comp_def)

text \<open>One step of the filter: the callback pins the entry in the store when it keeps it.\<close>

lemma filter_traffic_step:
  "filter_traffic latest h (a # as) =
     (if carried_over (h a)
      then (a # fst (filter_traffic latest (h(a := pinned latest (h a))) as),
            snd (filter_traffic latest (h(a := pinned latest (h a))) as))
      else filter_traffic latest h as)"
  by (auto simp: carried_over_def pinned_def Let_def)

text \<open>
  The new array holds the addresses of the carried-over entries, in their order; an
  assignment of the callback never changes a weight, so later tests see the same weights.
\<close>

lemma filter_traffic_fst:
  "fst (filter_traffic latest h as) = filter (\<lambda>a. carried_over (h a)) as"
proof (induction as arbitrary: h)
  case Nil
  show ?case by simp
next
  case (Cons a as)
  have "filter (\<lambda>b. carried_over ((h(a := pinned latest (h a))) b)) as
        = filter (\<lambda>b. carried_over (h b)) as"
    by (rule filter_cong) auto
  with Cons show ?case
    by (simp add: filter_traffic_step del: filter_traffic.simps)
qed

text \<open>
  The store afterwards: the carried-over entries of the array are pinned, every other
  object is as it was. An address that occurs twice is pinned once, as pinning twice is
  pinning once.
\<close>

lemma filter_traffic_snd:
  "snd (filter_traffic latest h as) =
     (\<lambda>a. if a \<in> set as \<and> carried_over (h a) then pinned latest (h a) else h a)"
proof (induction as arbitrary: h)
  case Nil
  show ?case by simp
next
  case (Cons a as)
  show ?case
  proof (cases "carried_over (h a)")
    case True
    then show ?thesis
      by (auto simp: filter_traffic_step Cons.IH fun_eq_iff simp del: filter_traffic.simps)
  next
    case False
    then show ?thesis
      by (auto simp: filter_traffic_step Cons.IH fun_eq_iff simp del: filter_traffic.simps)
  qed
qed

lemma reconcile_eq:
  assumes "configuration app = Some c" and "ingress c = Some i" and "traffic i = Some addrs"
  shows "reconcile h app newName =
           Inr (map (pinned (latestRevisionName app)) (filter carried_over (map h addrs))
                  @ [new_entry newName],
                (\<lambda>a. if a \<in> set addrs \<and> carried_over (h a)
                      then pinned (latestRevisionName app) (h a) else h a))"
  using assms
  by (simp add: reconcile_def Let_def filter_traffic_fst filter_traffic_snd filter_map
      comp_def new_entry_def cong: map_cong)

lemma reconciled_traffic_eq:
  assumes "configuration app = Some c" and "ingress c = Some i" and "traffic i = Some addrs"
  shows "reconciled_traffic h app newName =
           Inr (map (pinned (latestRevisionName app)) (filter carried_over (map h addrs))
                  @ [new_entry newName])"
  by (simp add: reconciled_traffic_def reconcile_eq [OF assms])

lemma snapshot_entries_after_eq:
  assumes "configuration app = Some c" and "ingress c = Some i" and "traffic i = Some addrs"
  shows "snapshot_entries_after h app newName =
           Inr (map (\<lambda>a. if carried_over (h a) then pinned (latestRevisionName app) (h a)
                         else h a) addrs)"
  using assms
  by (simp add: snapshot_entries_after_def reconcile_eq [OF assms] traffic_or_empty_def)

section \<open>The sum of line 160\<close>

lemma bitlen_bound: "n \<noteq> 0 \<Longrightarrow> 2 ^ (bitlen n - 1) \<le> n"
proof (induction n rule: bitlen.induct)
  case (1 n)
  show ?case
  proof (cases "n div 2 = 0")
    case True
    with "1.prems" show ?thesis
      by (simp add: bitlen.simps [of n] bitlen.simps [of 0])
  next
    case False
    then have "2 ^ (bitlen (n div 2) - 1) \<le> n div 2"
      using "1.IH" "1.prems" by simp
    moreover have "bitlen (n div 2) \<noteq> 0"
      using False by (simp add: bitlen.simps [of "n div 2"])
    ultimately have "2 * 2 ^ (bitlen (n div 2) - 1) \<le> n" by linarith
    moreover have "bitlen n - 1 = Suc (bitlen (n div 2) - 1)"
      using "1.prems" \<open>bitlen (n div 2) \<noteq> 0\<close> by (simp add: bitlen.simps [of n])
    ultimately show ?thesis by simp
  qed
qed

text \<open>Rounding never takes a magnitude to 0.\<close>

lemma round_magnitude_pos:
  assumes "m \<noteq> 0"
  shows "0 < round_magnitude m"
proof -
  define k where "k = bitlen m - 53"
  have "(2::nat) ^ (bitlen m - 1) \<le> m" using assms by (rule bitlen_bound)
  moreover have "(2::nat) ^ k \<le> 2 ^ (bitlen m - 1)"
    unfolding k_def by (rule power_increasing) simp_all
  ultimately have "2 ^ k \<le> m" by linarith
  then have "0 < m div 2 ^ k" by (simp add: div_greater_zero_iff)
  then show ?thesis
    by (simp add: round_magnitude_def Let_def k_def [symmetric])
qed

lemma round_to_double_nonneg:
  assumes "0 \<le> s"
  shows "round_to_double s = PosInf
         \<or> (\<exists>n. round_to_double s = Num n \<and> 0 \<le> n \<and> (n = 0) = (s = 0))"
proof (cases "nat \<bar>s\<bar> < 2 ^ 53")
  case True
  with assms show ?thesis by (simp add: round_to_double_def)
next
  case False
  then have "nat \<bar>s\<bar> \<noteq> 0" by auto
  then have pos: "0 < round_magnitude (nat \<bar>s\<bar>)" by (rule round_magnitude_pos)
  have s: "s \<noteq> 0" "\<not> s < 0" using assms False by auto
  have "round_to_double s =
          (if overflow_threshold \<le> round_magnitude (nat \<bar>s\<bar>) then PosInf
           else Num (int (round_magnitude (nat \<bar>s\<bar>))))"
    using False s by (simp add: round_to_double_def Let_def)
  with pos s show ?thesis by auto
qed

lemma below_overflow_threshold:
  assumes "n < 2 ^ 64"
  shows "\<not> overflow_threshold \<le> n"
proof -
  have "(2::nat) ^ 64 < 2 ^ 1024" by (rule power_strict_increasing) simp_all
  with assms show ?thesis by (simp add: overflow_threshold_def)
qed

lemma js_add_simps:
  "js_add prev None = NaN"
  "js_add NaN w = NaN"
  "js_add PosInf (Some b) = PosInf"
  "js_add NegInf (Some b) = NegInf"
  "js_add (Num a) (Some b) = round_to_double (a + b)"
  by (simp_all add: js_add_def split: option.splits)

lemma foldl_js_add_NaN:
  "foldl (\<lambda>prev curr. js_add prev (weight curr)) NaN ts = NaN"
  by (induction ts) (simp_all add: js_add_simps)

text \<open>An unset weight anywhere makes the sum \<open>NaN\<close>, whatever was summed before it.\<close>

lemma foldl_js_add_unset:
  assumes "t \<in> set ts" and "weight t = None"
  shows "foldl (\<lambda>prev curr. js_add prev (weight curr)) acc ts = NaN"
  using assms
proof (induction ts arbitrary: acc)
  case Nil
  then show ?case by simp
next
  case (Cons u us)
  show ?case
  proof (cases "weight u")
    case None
    then show ?thesis by (simp add: js_add_simps foldl_js_add_NaN)
  next
    case (Some w)
    with Cons.prems have "t \<in> set us" by auto
    then show ?thesis using Cons.IH Cons.prems(2) by simp
  qed
qed

lemma foldl_js_add_PosInf:
  assumes "\<forall>t \<in> set ts. weight t \<noteq> None"
  shows "foldl (\<lambda>prev curr. js_add prev (weight curr)) PosInf ts = PosInf"
  using assms by (induction ts) (auto simp: js_add_simps)

lemma total_weight_nonneg:
  assumes "\<forall>t \<in> set ts. \<forall>w. weight t = Some w \<longrightarrow> 0 \<le> w"
  shows "0 \<le> total_weight ts"
  using assms
  by (induction ts) (auto simp: total_weight_def split: option.splits)

text \<open>
  Weights that are set and not negative: the sum of doubles is an infinity or a number
  that is not negative, and it is 0 exactly when the integers sum to 0.
\<close>

lemma foldl_js_add_nonneg:
  assumes "\<forall>t \<in> set ts. \<exists>w. weight t = Some w \<and> 0 \<le> w" and "0 \<le> a"
  shows "foldl (\<lambda>prev curr. js_add prev (weight curr)) (Num a) ts = PosInf
         \<or> (\<exists>n. foldl (\<lambda>prev curr. js_add prev (weight curr)) (Num a) ts = Num n
                \<and> 0 \<le> n \<and> (n = 0) = (a = 0 \<and> total_weight ts = 0))"
  using assms
proof (induction ts arbitrary: a)
  case Nil
  then show ?case by simp
next
  case (Cons t ts)
  from Cons.prems obtain w where w: "weight t = Some w" "0 \<le> w" by auto
  have rest: "\<forall>t \<in> set ts. \<exists>w. weight t = Some w \<and> 0 \<le> w"
    using Cons.prems by simp
  then have "\<forall>t \<in> set ts. \<forall>w. weight t = Some w \<longrightarrow> 0 \<le> w" by auto
  then have tw: "0 \<le> total_weight ts" by (rule total_weight_nonneg)
  have total: "total_weight (t # ts) = w + total_weight ts"
    using w by (simp add: total_weight_def)
  from round_to_double_nonneg [of "a + w"] Cons.prems(2) w(2)
  consider "round_to_double (a + w) = PosInf"
    | n where "round_to_double (a + w) = Num n" "0 \<le> n" "(n = 0) = (a + w = 0)"
    by auto
  then show ?case
  proof cases
    case 1
    have "\<forall>t \<in> set ts. weight t \<noteq> None" using rest by auto
    then show ?thesis
      using 1 w by (simp add: js_add_simps foldl_js_add_PosInf)
  next
    case 2
    have step: "foldl (\<lambda>prev curr. js_add prev (weight curr)) (Num a) (t # ts)
                  = foldl (\<lambda>prev curr. js_add prev (weight curr)) (Num n) ts"
      using 2(1) w by (simp add: js_add_simps)
    have "(n = 0 \<and> total_weight ts = 0) = (a = 0 \<and> total_weight (t # ts) = 0)"
      using 2(3) w(2) Cons.prems(2) tw total by auto
    with Cons.IH [OF rest 2(2)] show ?thesis
      unfolding step by auto
  qed
qed

lemma foldl_js_add_zeros:
  assumes "\<forall>t \<in> set ts. weight t = Some 0"
  shows "foldl (\<lambda>prev curr. js_add prev (weight curr)) (Num 0) ts = Num 0"
  using assms by (induction ts) (simp_all add: js_add_simps round_to_double_def)

lemma total_weight_zero:
  assumes "\<forall>t \<in> set ts. \<exists>w. weight t = Some w \<and> 0 \<le> w" and "total_weight ts = 0"
  shows "\<forall>t \<in> set ts. weight t = Some 0"
  using assms
proof (induction ts)
  case Nil
  show ?case by simp
next
  case (Cons t ts)
  from Cons.prems obtain w where w: "weight t = Some w" "0 \<le> w" by auto
  have rest: "\<forall>t \<in> set ts. \<exists>w. weight t = Some w \<and> 0 \<le> w"
    using Cons.prems by simp
  then have "\<forall>t \<in> set ts. \<forall>w. weight t = Some w \<longrightarrow> 0 \<le> w" by auto
  then have "0 \<le> total_weight ts" by (rule total_weight_nonneg)
  moreover have "w + total_weight ts = 0"
    using Cons.prems(2) w by (simp add: total_weight_def)
  ultimately have "w = 0" "total_weight ts = 0" using w(2) by auto
  with Cons.IH [OF rest] w show ?case by simp
qed

lemma weight_sum_NaN_if_unset:
  assumes "t \<in> set ts" and "weight t = None"
  shows "weight_sum ts \<noteq> Num 0"
  using foldl_js_add_unset [OF assms] by (simp add: weight_sum_def)

lemma weight_sum_nonzero_if_total:
  assumes "\<forall>t \<in> set ts. \<forall>w. weight t = Some w \<longrightarrow> 0 \<le> w"
      and "total_weight ts \<noteq> 0"
  shows "weight_sum ts \<noteq> Num 0"
proof (cases "\<exists>t \<in> set ts. weight t = None")
  case True
  then show ?thesis using weight_sum_NaN_if_unset by blast
next
  case False
  then have "\<forall>t \<in> set ts. \<exists>w. weight t = Some w \<and> 0 \<le> w"
    using assms(1) by auto
  from foldl_js_add_nonneg [OF this, of 0] assms(2) show ?thesis
    by (auto simp: weight_sum_def)
qed

lemma weight_sum_zero_if_total:
  assumes "\<forall>t \<in> set ts. \<exists>w. weight t = Some w \<and> 0 \<le> w"
      and "total_weight ts = 0"
  shows "weight_sum ts = Num 0"
  using foldl_js_add_zeros [OF total_weight_zero [OF assms]] by (simp add: weight_sum_def)

text \<open>
  Without the sign condition the sum of doubles and the sum of integers part: \<open>2 ^ 53 + 1\<close>
  is rounded to \<open>2 ^ 53\<close>, so that weights that add up to 1 are summed to 0 by line 160,
  and weights that add up to 0 are summed to \<open>- 1\<close>.
\<close>

lemma weight_sum_absorbs_small_weight:
  "weight_sum [blank\<lparr>weight := Some (2 ^ 53)\<rparr>, blank\<lparr>weight := Some 1\<rparr>,
               blank\<lparr>weight := Some (- (2 ^ 53))\<rparr>] = Num 0"
  "weight_sum [blank\<lparr>weight := Some 1\<rparr>, blank\<lparr>weight := Some (2 ^ 53)\<rparr>,
               blank\<lparr>weight := Some (- (2 ^ 53))\<rparr>, blank\<lparr>weight := Some (- 1)\<rparr>]
     = Num (- 1)"
  by (simp_all add: weight_sum_def blank_def js_add_def round_to_double_def
      round_magnitude_def bitlen.simps Let_def below_overflow_threshold)

section \<open>The two outcomes of the guard of line 160\<close>

lemma deactivateRevision_refuses:
  assumes "weight_sum (filter (\<lambda>r. revisionName r = Some target) traffics) \<noteq> Num 0"
  shows "deactivateRevision client rg app traffics target log = (Inl UnsafeDeactivation, log)"
proof -
  have "filter (\<lambda>r. revisionName r = Some target) traffics \<noteq> []"
    using assms by (auto simp: weight_sum_def)
  with assms show ?thesis
    by (simp add: deactivateRevision_def)
qed

lemma deactivateRevision_proceeds:
  assumes "weight_sum (filter (\<lambda>r. revisionName r = Some target) traffics) = Num 0"
  shows "deactivateRevision client rg app traffics target log =
     (case containerAppsRevisions_deactivateRevision client rg app target of
        Inl m \<Rightarrow> (Inl (Upstream m), log @ [DeactivateRevision rg app target])
      | Inr u \<Rightarrow>
         (case containerAppsRevisions_getRevision client rg app target of
            Inl m \<Rightarrow> (Inl (Upstream m),
                       log @ [DeactivateRevision rg app target, GetRevision rg app target])
          | Inr None \<Rightarrow> (Inl TypeError,
                         log @ [DeactivateRevision rg app target, GetRevision rg app target])
          | Inr (Some r) \<Rightarrow>
             (if active r = Some True
              then (Inl DeactivationNotConfirmed,
                    log @ [DeactivateRevision rg app target, GetRevision rg app target])
              else (Inr (),
                    log @ [DeactivateRevision rg app target, GetRevision rg app target]))))"
  using assms
  by (simp add: deactivateRevision_def Let_def split: sum.splits option.splits)

text \<open>In deactivation mode the run is the get and then the validator.\<close>

lemma main_deactivation_mode:
  assumes "deactivateRevisionMode taskParams"
      and "length (revisionName_of taskParams) \<le> 63"
      and "containerApps_get client (resourceGroup taskParams) (containerAppName taskParams)
             = Inr (snapshot, h)"
      and "deactivateRevision client (resourceGroup taskParams) (containerAppName taskParams)
             (map h (traffic_or_empty snapshot)) (revisionName_of taskParams)
             [Get (resourceGroup taskParams) (containerAppName taskParams)] = (r, log)"
  shows "failed (main client taskParams) = (case r of Inl e \<Rightarrow> Some e | Inr u \<Rightarrow> None)"
    and "calls (main client taskParams) = log"
  using assms
  by (simp_all add: main_def MAX_REVISION_NAME_LENGTH_def Let_def split: sum.splits)

lemma main_refuses:
  assumes "deactivateRevisionMode taskParams"
      and "length (revisionName_of taskParams) \<le> 63"
      and "containerApps_get client (resourceGroup taskParams) (containerAppName taskParams)
             = Inr (snapshot, h)"
      and "weight_sum (filter (\<lambda>r. revisionName r = Some (revisionName_of taskParams))
                         (map h (traffic_or_empty snapshot))) \<noteq> Num 0"
  shows "failed (main client taskParams) = Some UnsafeDeactivation
         \<and> calls (main client taskParams)
             = [Get (resourceGroup taskParams) (containerAppName taskParams)]"
  using main_deactivation_mode [OF assms(1-3) deactivateRevision_refuses [OF assms(4)]]
  by simp

section \<open>The scenario of the specification\<close>

text \<open>
  The run on the end-to-end scenario: the alias is pinned to \<open>app--old1\<close> with its weight
  100, the new revision is appended with weight 0, the scaling rule has concurrency 50,
  and the URL of the new revision is emitted.
\<close>

lemma end_to_end_scenario:
  "main (mock_client scenario_app scenario_heap active_revision) deploy_params =
     \<lparr>failed = None,
      app_url = Some (ascii ''https://app-abc1234.example.com/''),
      calls =
        [Get (ascii ''rg'') (ascii ''app''),
         BeginUpdateAndWait (ascii ''rg'') (ascii ''app'')
           \<lparr>env_configuration =
              \<lparr>nc_dapr = None,
               nc_ingress =
                 Some \<lparr>ic_external = Some True, ic_targetPort = Some 80,
                       ic_traffic =
                         [\<lparr>revisionName = Some (ascii ''app--old1''), weight = Some 100,
                            latestRevision = Some False\<rparr>,
                          \<lparr>revisionName = Some (ascii ''app--abc1234''), weight = Some 0,
                            latestRevision = Some False\<rparr>],
                       ic_customDomains = []\<rparr>,
               nc_activeRevisionsMode = ascii ''Multiple''\<rparr>,
            env_location = ascii ''eastus'', env_managedEnvironmentId = None,
            env_template =
              \<lparr>et_containers =
                 [\<lparr>container_name = ascii ''app'',
                   container_image = ascii ''registry/app:sha''\<rparr>],
               et_scale =
                 \<lparr>sc_maxReplicas = Some 10, sc_minReplicas = Some 0,
                  sc_rules =
                    [\<lparr>rule_name = ascii ''httpscalingrule'', custom_type = ascii ''http'',
                      concurrentRequests = ascii ''50''\<rparr>]\<rparr>,
               et_revisionSuffix = ascii ''abc1234''\<rparr>\<rparr>,
         GetRevision (ascii ''rg'') (ascii ''app'') (ascii ''app--abc1234'')]\<rparr>"
  by (simp add: main_def deploy_def reconcile_def ingressConfig_of_def envelope_of_def
      scaleConfig_of_def networkConfig_of_def containerAppEnvelope_of_def httpscalingrule_def
      mock_client_def scenario_app_def scenario_heap_def ex_app_def ex_configuration_def
      ex_ingress_def ex_scale_def deploy_params_def active_revision_def revisionName_of_def
      MAX_REVISION_NAME_LENGTH_def ascii_def Let_def)

section \<open>Traffic reconciliation: properties\<close>

lemma no_zero_weight_carried:
  "filter (\<lambda>t. weight t = Some 0) (map (pinned latest) (filter carried_over ts)) = []"
  by (simp add: filter_empty_conv carried_over_def)

text \<open>
  C1. For every live traffic list, the reconciler returns a list whose total weight is the
  total weight of the carried-over (nonzero-weight) entries of the input. The list is the
  carried-over entries in their order, each with its weight, followed by exactly one
  appended entry: the new revision name with weight 0 and the alias flag false. That entry
  is the only entry of the output with weight 0.
\<close>

theorem reconcile_keeps_weight_appends_new:
  assumes "configuration app = Some c" and "ingress c = Some i" and "traffic i = Some addrs"
  shows "\<exists>out. reconciled_traffic h app newName = Inr out
           \<and> total_weight out = total_weight (filter carried_over (map h addrs))
           \<and> length out = length (filter carried_over (map h addrs)) + 1
           \<and> last out = \<lparr>revisionName = Some newName, weight = Some 0,
                          latestRevision = Some False\<rparr>
           \<and> butlast out
               = map (pinned (latestRevisionName app)) (filter carried_over (map h addrs))
           \<and> map weight (butlast out) = map weight (filter carried_over (map h addrs))
           \<and> filter (\<lambda>t. weight t = Some 0) out
               = [\<lparr>revisionName = Some newName, weight = Some 0,
                    latestRevision = Some False\<rparr>]"
proof -
  let ?carried = "filter carried_over (map h addrs)"
  let ?out = "map (pinned (latestRevisionName app)) ?carried @ [new_entry newName]"
  have "reconciled_traffic h app newName = Inr ?out"
    by (rule reconciled_traffic_eq [OF assms])
  moreover have "total_weight ?out = total_weight ?carried"
    using total_weight_pinned [of "latestRevisionName app" ?carried]
    by (simp add: total_weight_def new_entry_def)
  moreover have "last ?out = \<lparr>revisionName = Some newName, weight = Some 0,
                          latestRevision = Some False\<rparr>"
    by (simp add: new_entry_def)
  moreover have "map weight (butlast ?out) = map weight ?carried"
    by (simp add: comp_def)
  moreover have "filter (\<lambda>t. weight t = Some 0) ?out
                   = [\<lparr>revisionName = Some newName, weight = Some 0,
                        latestRevision = Some False\<rparr>]"
    using no_zero_weight_carried [of "latestRevisionName app" "map h addrs"]
    by (simp add: new_entry_def)
  ultimately show ?thesis by simp
qed

theorem reconcile_keeps_weight_appends_new_witness:
  "reconciled_traffic ex_heap ex_app (ascii ''app--abc1234'') =
     Inr [\<lparr>revisionName = Some (ascii ''app--old1''), weight = Some 60,
            latestRevision = Some False\<rparr>,
          \<lparr>revisionName = Some (ascii ''app--pr7''), weight = Some 40,
            latestRevision = None\<rparr>,
          \<lparr>revisionName = Some (ascii ''app--abc1234''), weight = Some 0,
            latestRevision = Some False\<rparr>]
   \<and> total_weight (filter carried_over (map ex_heap [0, 1, 2])) = 100"
  using reconcile_keeps_weight_appends_new
          [where app = ex_app and c = ex_configuration and i = ex_ingress
             and addrs = "[0, 1, 2]" and h = ex_heap and newName = "ascii ''app--abc1234''"]
  by (simp add: ex_app_def ex_configuration_def ex_ingress_def ex_heap_def blank_def
      reconciled_traffic_def reconcile_def total_weight_def carried_over_def)

text \<open>
  C2. For every live traffic list (with or without an entry whose alias flag is true), no
  entry of the reconciled list has the alias flag set, and every carried-over entry that had
  the flag set has, at its place in the output, the resource's current latest-revision name
  as its name, the flag false and its weight.
\<close>

theorem reconcile_pins_latest_alias:
  assumes "configuration app = Some c" and "ingress c = Some i" and "traffic i = Some addrs"
  shows "\<exists>out. reconciled_traffic h app newName = Inr out
           \<and> (\<forall>t \<in> set out. latestRevision t \<noteq> Some True)
           \<and> length out = length (filter carried_over (map h addrs)) + 1
           \<and> (\<forall>k < length (filter carried_over (map h addrs)).
                 latestRevision (filter carried_over (map h addrs) ! k) = Some True \<longrightarrow>
                   revisionName (out ! k) = latestRevisionName app
                   \<and> latestRevision (out ! k) = Some False
                   \<and> weight (out ! k) = weight (filter carried_over (map h addrs) ! k))"
proof -
  let ?carried = "filter carried_over (map h addrs)"
  let ?out = "map (pinned (latestRevisionName app)) ?carried @ [new_entry newName]"
  have "reconciled_traffic h app newName = Inr ?out"
    by (rule reconciled_traffic_eq [OF assms])
  moreover have "\<forall>t \<in> set ?out. latestRevision t \<noteq> Some True"
    by (auto simp: latestRevision_pinned new_entry_def)
  moreover have "\<forall>k < length ?carried. latestRevision (?carried ! k) = Some True \<longrightarrow>
                   revisionName (?out ! k) = latestRevisionName app
                   \<and> latestRevision (?out ! k) = Some False
                   \<and> weight (?out ! k) = weight (?carried ! k)"
    by (simp add: nth_append pinned_def)
  ultimately show ?thesis by simp
qed

theorem reconcile_pins_latest_alias_witness:
  "latestRevision (ex_heap 0) = Some True
   \<and> filter carried_over (map ex_heap [0, 1, 2]) = [ex_heap 0, ex_heap 2]
   \<and> reconciled_traffic ex_heap ex_app (ascii ''app--abc1234'') =
     Inr [\<lparr>revisionName = Some (ascii ''app--old1''), weight = Some 60,
            latestRevision = Some False\<rparr>,
          \<lparr>revisionName = Some (ascii ''app--pr7''), weight = Some 40,
            latestRevision = None\<rparr>,
          \<lparr>revisionName = Some (ascii ''app--abc1234''), weight = Some 0,
            latestRevision = Some False\<rparr>]
   \<and> latestRevisionName ex_app = Some (ascii ''app--old1'')"
  using reconcile_pins_latest_alias
          [where app = ex_app and c = ex_configuration and i = ex_ingress
             and addrs = "[0, 1, 2]" and h = ex_heap and newName = "ascii ''app--abc1234''"]
  by (simp add: ex_app_def ex_configuration_def ex_ingress_def ex_heap_def blank_def
      reconciled_traffic_def reconcile_def carried_over_def)

text \<open>
  C3, as amended. The reconciler removes no duplicate: the names of its output are the
  resolved names of the carried-over entries (the latest-revision name for an alias, the
  entry's own name otherwise) followed by the new name. So the output has no two entries
  of the same name exactly when those resolved names are pairwise distinct and none of
  them is the new revision name.
\<close>

theorem reconcile_distinct_names_iff:
  assumes "configuration app = Some c" and "ingress c = Some i" and "traffic i = Some addrs"
  shows "\<exists>out. reconciled_traffic h app newName = Inr out
           \<and> (distinct (map revisionName out) =
                (distinct (map (resolved_name (latestRevisionName app))
                             (filter carried_over (map h addrs)))
                 \<and> Some newName \<notin> set (map (resolved_name (latestRevisionName app))
                                          (filter carried_over (map h addrs)))))"
proof -
  let ?carried = "filter carried_over (map h addrs)"
  let ?out = "map (pinned (latestRevisionName app)) ?carried @ [new_entry newName]"
  let ?names = "map (resolved_name (latestRevisionName app)) ?carried"
  have out: "reconciled_traffic h app newName = Inr ?out"
    by (rule reconciled_traffic_eq [OF assms])
  have names: "map revisionName ?out = ?names @ [Some newName]"
    by (simp add: revisionName_pinned new_entry_def comp_def)
  have "distinct (map revisionName ?out) = (distinct ?names \<and> Some newName \<notin> set ?names)"
    unfolding names by simp
  with out show ?thesis by blast
qed

theorem reconcile_distinct_names_iff_witness:
  "reconciled_traffic ex_heap ex_app (ascii ''app--abc1234'') =
     Inr [\<lparr>revisionName = Some (ascii ''app--old1''), weight = Some 60,
            latestRevision = Some False\<rparr>,
          \<lparr>revisionName = Some (ascii ''app--pr7''), weight = Some 40,
            latestRevision = None\<rparr>,
          \<lparr>revisionName = Some (ascii ''app--abc1234''), weight = Some 0,
            latestRevision = Some False\<rparr>]
   \<and> map (resolved_name (latestRevisionName ex_app))
        (filter carried_over (map ex_heap [0, 1, 2]))
       = [Some (ascii ''app--old1''), Some (ascii ''app--pr7'')]"
  using reconcile_distinct_names_iff
          [where app = ex_app and c = ex_configuration and i = ex_ingress
             and addrs = "[0, 1, 2]" and h = ex_heap and newName = "ascii ''app--abc1234''"]
  by (simp add: ex_app_def ex_configuration_def ex_ingress_def ex_heap_def blank_def
      reconciled_traffic_def reconcile_def carried_over_def resolved_name_def)

text \<open>
  C3 as stated fails. With a fixed entry for \<open>app--old1\<close> beside a floating alias, and
  \<open>app--old1\<close> the latest revision, the output names \<open>app--old1\<close> twice; and when the new
  revision name \<open>app--abc123\<close> carries traffic already, the output names it twice.
\<close>

theorem reconcile_duplicate_name_counterexample:
  "reconciled_traffic dup_heap two_entry_app (ascii ''app--abc1234'') = Inr dup_out
   \<and> \<not> distinct (map revisionName dup_out)
   \<and> reconciled_traffic live_heap two_entry_app (ascii ''app--abc123'') = Inr live_out
   \<and> \<not> distinct (map revisionName live_out)"
  by (simp add: two_entry_app_def ex_app_def ex_configuration_def ex_ingress_def dup_heap_def
      live_heap_def dup_out_def live_out_def blank_def reconciled_traffic_def reconcile_def
      ascii_def)

text \<open>
  C4. The claim holds for an empty list and fails for an absent one: with the traffic
  array \<^verbatim>\<open>undefined\<close>, line 46 throws before the \<^verbatim>\<open>|| []\<close> of line 53 is reached, and the
  run fails after the get, with no update submitted. Line 40 reads the same field of the
  same snapshot as the empty list.
\<close>

theorem absent_traffic_throws:
  "reconciled_traffic ex_heap empty_traffic_app (ascii ''app--abc1234'')
     = Inr [\<lparr>revisionName = Some (ascii ''app--abc1234''), weight = Some 0,
              latestRevision = Some False\<rparr>]
   \<and> reconcile ex_heap absent_traffic_app (ascii ''app--abc1234'') = Inl TypeError
   \<and> failed (main (mock_client absent_traffic_app ex_heap active_revision) deploy_params)
       = Some TypeError
   \<and> calls (main (mock_client absent_traffic_app ex_heap active_revision) deploy_params)
       = [Get (ascii ''rg'') (ascii ''app'')]
   \<and> traffic_or_empty absent_traffic_app = []"
  by (simp add: absent_traffic_app_def empty_traffic_app_def ex_app_def ex_configuration_def
      ex_ingress_def reconcile_def reconciled_traffic_def main_def deploy_def mock_client_def
      deploy_params_def revisionName_of_def MAX_REVISION_NAME_LENGTH_def ascii_def
      traffic_or_empty_def Let_def)

text \<open>
  C9, as amended. Reconciliation and the construction of the envelope assign to no field
  of the snapshot and do not change its traffic array (the new entry is pushed on a new
  array); of the entries, they change exactly the carried-over ones whose alias flag is
  true, which are rewritten in place: the name becomes the latest-revision name and the
  flag false. Every other object of the store is as it was. Lines 60-119 write to no
  object of the snapshot: \<open>build_envelope\<close> has no store to return.
\<close>

theorem reconcile_rewrites_only_carried_aliases:
  assumes "configuration app = Some c" and "ingress c = Some i" and "traffic i = Some addrs"
  shows "\<exists>out h'. reconcile h app newName = Inr (out, h')
           \<and> (\<forall>a. h' a =
                 (if a \<in> set addrs \<and> carried_over (h a) \<and> latestRevision (h a) = Some True
                  then (h a)\<lparr>revisionName := latestRevisionName app,
                              latestRevision := Some False\<rparr>
                  else h a))
           \<and> snapshot_entries_after h app newName =
               Inr (map (\<lambda>a. if carried_over (h a) \<and> latestRevision (h a) = Some True
                             then (h a)\<lparr>revisionName := latestRevisionName app,
                                         latestRevision := Some False\<rparr>
                             else h a) addrs)"
  by (simp add: reconcile_eq [OF assms] snapshot_entries_after_eq [OF assms] pinned_def
      cong: if_cong)

theorem reconcile_rewrites_only_carried_aliases_witness:
  "snapshot_entries_after ex_heap ex_app (ascii ''app--abc1234'') =
     Inr [\<lparr>revisionName = Some (ascii ''app--old1''), weight = Some 60,
            latestRevision = Some False\<rparr>,
          ex_heap 1, ex_heap 2]
   \<and> latestRevision (ex_heap 0) = Some True \<and> carried_over (ex_heap 0)"
  using reconcile_rewrites_only_carried_aliases
          [where app = ex_app and c = ex_configuration and i = ex_ingress
             and addrs = "[0, 1, 2]" and h = ex_heap and newName = "ascii ''app--abc1234''"]
  by (simp add: ex_app_def ex_configuration_def ex_ingress_def ex_heap_def blank_def
      snapshot_entries_after_def reconcile_def traffic_or_empty_def carried_over_def)

text \<open>
  C9 as stated fails: after reconciliation the first entry of the snapshot's own traffic
  array is no longer the floating alias the snapshot was read with.
\<close>

theorem snapshot_entry_rewritten_counterexample:
  "map ex_heap (traffic_or_empty ex_app) =
     [\<lparr>revisionName = None, weight = Some 60, latestRevision = Some True\<rparr>,
      \<lparr>revisionName = Some (ascii ''app--stale''), weight = Some 0,
        latestRevision = Some False\<rparr>,
      \<lparr>revisionName = Some (ascii ''app--pr7''), weight = Some 40, latestRevision = None\<rparr>]
   \<and> snapshot_entries_after ex_heap ex_app (ascii ''app--abc1234'') =
     Inr [\<lparr>revisionName = Some (ascii ''app--old1''), weight = Some 60,
            latestRevision = Some False\<rparr>,
          \<lparr>revisionName = Some (ascii ''app--stale''), weight = Some 0,
            latestRevision = Some False\<rparr>,
          \<lparr>revisionName = Some (ascii ''app--pr7''), weight = Some 40,
            latestRevision = None\<rparr>]
   \<and> snapshot_entries_after ex_heap ex_app (ascii ''app--abc1234'')
       \<noteq> Inr (map ex_heap (traffic_or_empty ex_app))"
  by (simp add: ex_app_def ex_configuration_def ex_ingress_def ex_heap_def blank_def
      snapshot_entries_after_def reconcile_def traffic_or_empty_def)

section \<open>The envelope: properties\<close>

text \<open>
  C8. For every live snapshot from which the envelope is built (one with a configuration,
  an ingress, a template and a scale), the envelope has an ingress block if and only if
  the snapshot's ingress is external. When it is not (false or unset) the block is absent
  from the envelope, not present with a false or empty value; when it is, the block is the
  one of lines 60-70.
\<close>

theorem ingress_block_iff_external:
  assumes "configuration app = Some c" and "ingress c = Some i"
      and "template app = Some t" and "scale t = Some s"
  shows "\<exists>env. build_envelope taskParams app traffics = Inr env
           \<and> (nc_ingress (env_configuration env) \<noteq> None) = (external i = Some True)
           \<and> (external i \<noteq> Some True \<longrightarrow> nc_ingress (env_configuration env) = None)
           \<and> (external i = Some True \<longrightarrow>
                 nc_ingress (env_configuration env) =
                   Some \<lparr>ic_external = Some True, ic_targetPort = targetPort i,
                         ic_traffic = traffics,
                         ic_customDomains =
                           (case customDomains i of None \<Rightarrow> [] | Some ds \<Rightarrow> ds)\<rparr>)"
  using assms
  by (cases "external i")
     (auto simp: build_envelope_def ingressConfig_of_def envelope_of_def scaleConfig_of_def
        networkConfig_of_def containerAppEnvelope_of_def)

theorem ingress_block_iff_external_witness:
  "external ex_ingress = Some True
   \<and> map_sum id (\<lambda>env. nc_ingress (env_configuration env))
        (build_envelope deploy_params ex_app [])
       = Inr (Some \<lparr>ic_external = Some True, ic_targetPort = Some 80, ic_traffic = [],
                     ic_customDomains = []\<rparr>)
   \<and> map_sum id (\<lambda>env. nc_ingress (env_configuration env))
        (build_envelope deploy_params internal_app []) = Inr None"
  using ingress_block_iff_external
          [where app = ex_app and c = ex_configuration and i = ex_ingress
             and t = "\<lparr>scale = Some ex_scale\<rparr>" and s = ex_scale
             and taskParams = deploy_params and traffics = "[]"]
        ingress_block_iff_external
          [where app = internal_app
             and c = "ex_configuration\<lparr>ingress := Some (ex_ingress\<lparr>external := Some False\<rparr>)\<rparr>"
             and i = "ex_ingress\<lparr>external := Some False\<rparr>"
             and t = "\<lparr>scale = Some ex_scale\<rparr>" and s = ex_scale
             and taskParams = deploy_params and traffics = "[]"]
  by (auto simp: ex_app_def internal_app_def ex_configuration_def ex_ingress_def)

section \<open>Naming and validation: properties\<close>

text \<open>
  C5. Whenever the composed revision name \<open>parent--suffix\<close> is longer than 63 code units,
  the run fails with \<open>InvalidConfiguration\<close> and has made no call on the control-plane
  client: no get, update, getRevision or deactivate. This holds for every client and in
  both modes.
\<close>

theorem name_too_long_fails_before_any_call:
  assumes "length (containerAppName taskParams @ ascii ''--'' @ revisionNameSuffix taskParams)
             > 63"
  shows "failed (main client taskParams) = Some InvalidConfiguration
         \<and> calls (main client taskParams) = []
         \<and> app_url (main client taskParams) = None"
  using assms by (simp add: main_def revisionName_of_def MAX_REVISION_NAME_LENGTH_def)

theorem name_too_long_witness:
  "length (containerAppName long_params @ ascii ''--'' @ revisionNameSuffix long_params) = 69
   \<and> failed (main failing_client long_params) = Some InvalidConfiguration
   \<and> calls (main failing_client long_params) = []"
  using name_too_long_fails_before_any_call
          [where taskParams = long_params and client = failing_client]
  by (simp add: long_params_def ascii_def)

section \<open>Deactivation: properties\<close>

text \<open>
  C6. For every traffic list of the data model (a weight is an integer that is not
  negative) in which the weights of the entries named as the target sum to a nonzero value,
  the validator fails with \<open>UnsafeDeactivation\<close> and makes no call on the client at all:
  the list of calls is as it was, so no deactivate request is issued. In deactivation mode
  the run then fails with that error, and its only call is the get that fetched the list.
  The sum the validator computes is the sum of doubles of line 160; only the entries named
  as the target need a weight that is not negative, and one of them may have none.
\<close>

theorem nonzero_weight_refuses_deactivation:
  assumes "\<forall>t \<in> set traffics. revisionName t = Some target \<longrightarrow>
             (\<forall>w. weight t = Some w \<longrightarrow> 0 \<le> w)"
      and "total_weight (filter (\<lambda>r. revisionName r = Some target) traffics) \<noteq> 0"
  shows "deactivateRevision client rg app traffics target log = (Inl UnsafeDeactivation, log)
         \<and> (deactivateRevisionMode taskParams
              \<and> length (revisionName_of taskParams) \<le> 63
              \<and> containerApps_get client (resourceGroup taskParams)
                    (containerAppName taskParams) = Inr (snapshot, h)
              \<and> traffics = map h (traffic_or_empty snapshot)
              \<and> target = revisionName_of taskParams
            \<longrightarrow> failed (main client taskParams) = Some UnsafeDeactivation
                \<and> calls (main client taskParams)
                    = [Get (resourceGroup taskParams) (containerAppName taskParams)])"
proof -
  have "\<forall>t \<in> set (filter (\<lambda>r. revisionName r = Some target) traffics).
          \<forall>w. weight t = Some w \<longrightarrow> 0 \<le> w"
    using assms(1) by auto
  then have sum: "weight_sum (filter (\<lambda>r. revisionName r = Some target) traffics) \<noteq> Num 0"
    using assms(2) by (rule weight_sum_nonzero_if_total)
  show ?thesis
    using deactivateRevision_refuses [OF sum] main_refuses sum by blast
qed

theorem nonzero_weight_refuses_deactivation_witness:
  "total_weight (filter (\<lambda>r. revisionName r = Some (ascii ''app--abc123''))
                   (map live_heap [0, 1])) = 30
   \<and> deactivateRevision (mock_client two_entry_app live_heap active_revision)
        (ascii ''rg'') (ascii ''app'') (map live_heap [0, 1]) (ascii ''app--abc123'') []
       = (Inl UnsafeDeactivation, [])
   \<and> failed (main (mock_client two_entry_app live_heap active_revision) deactivate_params)
       = Some UnsafeDeactivation
   \<and> calls (main (mock_client two_entry_app live_heap active_revision) deactivate_params)
       = [Get (ascii ''rg'') (ascii ''app'')]"
  using nonzero_weight_refuses_deactivation
          [where target = "ascii ''app--abc123''" and traffics = "map live_heap [0, 1]"
             and client = "mock_client two_entry_app live_heap active_revision"
             and rg = "ascii ''rg''" and app = "ascii ''app''" and log = "[]"
             and taskParams = deactivate_params and snapshot = two_entry_app
             and h = live_heap]
  by (simp add: total_weight_def live_heap_def blank_def deactivate_params_def mock_client_def
      two_entry_app_def ex_app_def ex_configuration_def ex_ingress_def traffic_or_empty_def
      revisionName_of_def ascii_def)

text \<open>
  C7. For every traffic list of the data model (a weight is an integer that is not
  negative), whenever the weights of the entries named as the target sum to zero (each of
  them set; in particular when no entry is named as the target), the deactivate request is
  issued. The outcome is \<open>DeactivationNotConfirmed\<close> if and only if the request returned
  and the read that follows it returned a revision that is still active; when the request
  and the read return and the revision is not active, the outcome is success. The same
  holds of the run in deactivation mode.
\<close>

theorem zero_weight_deactivates_then_confirms:
  assumes "\<forall>t \<in> set traffics. revisionName t = Some target \<longrightarrow>
             (\<exists>w. weight t = Some w \<and> 0 \<le> w)"
      and "total_weight (filter (\<lambda>r. revisionName r = Some target) traffics) = 0"
  shows "DeactivateRevision rg app target
           \<in> set (snd (deactivateRevision client rg app traffics target log))
         \<and> (fst (deactivateRevision client rg app traffics target log)
               = Inl DeactivationNotConfirmed) =
             (\<exists>r. containerAppsRevisions_deactivateRevision client rg app target = Inr ()
                  \<and> containerAppsRevisions_getRevision client rg app target = Inr (Some r)
                  \<and> active r = Some True)
         \<and> (containerAppsRevisions_deactivateRevision client rg app target = Inr ()
              \<and> containerAppsRevisions_getRevision client rg app target = Inr (Some revision)
            \<longrightarrow> deactivateRevision client rg app traffics target log =
                  (if active revision = Some True then Inl DeactivationNotConfirmed else Inr (),
                   log @ [DeactivateRevision rg app target, GetRevision rg app target]))
         \<and> (deactivateRevisionMode taskParams
              \<and> length (revisionName_of taskParams) \<le> 63
              \<and> containerApps_get client (resourceGroup taskParams)
                    (containerAppName taskParams) = Inr (snapshot, h)
              \<and> traffics = map h (traffic_or_empty snapshot)
              \<and> target = revisionName_of taskParams
              \<and> rg = resourceGroup taskParams \<and> app = containerAppName taskParams
            \<longrightarrow> DeactivateRevision rg app target \<in> set (calls (main client taskParams))
                \<and> (failed (main client taskParams) = Some DeactivationNotConfirmed) =
                    (\<exists>r. containerAppsRevisions_deactivateRevision client rg app target = Inr ()
                         \<and> containerAppsRevisions_getRevision client rg app target
                             = Inr (Some r)
                         \<and> active r = Some True)
                \<and> (containerAppsRevisions_deactivateRevision client rg app target = Inr ()
                     \<and> containerAppsRevisions_getRevision client rg app target
                         = Inr (Some revision)
                     \<and> active revision \<noteq> Some True
                   \<longrightarrow> failed (main client taskParams) = None))"
proof -
  let ?D = "\<lambda>log. deactivateRevision client rg app traffics target log"
  have "\<forall>t \<in> set (filter (\<lambda>r. revisionName r = Some target) traffics).
          \<exists>w. weight t = Some w \<and> 0 \<le> w"
    using assms(1) by simp
  then have sum: "weight_sum (filter (\<lambda>r. revisionName r = Some target) traffics) = Num 0"
    using assms(2) by (rule weight_sum_zero_if_total)
  note run = deactivateRevision_proceeds [OF sum, of client rg app]
  have issued: "DeactivateRevision rg app target \<in> set (snd (?D l))" for l
    by (simp add: run split: sum.splits option.splits)
  have unconfirmed: "(fst (?D l) = Inl DeactivationNotConfirmed) =
      (\<exists>r. containerAppsRevisions_deactivateRevision client rg app target = Inr ()
           \<and> containerAppsRevisions_getRevision client rg app target = Inr (Some r)
           \<and> active r = Some True)" for l
    by (simp add: run split: sum.splits option.splits)
  have returned: "?D l =
      (if active revision = Some True then Inl DeactivationNotConfirmed else Inr (),
       l @ [DeactivateRevision rg app target, GetRevision rg app target])"
    if "containerAppsRevisions_deactivateRevision client rg app target = Inr ()"
      and "containerAppsRevisions_getRevision client rg app target = Inr (Some revision)" for l
    using that by (simp add: run)
  have whole_run: "DeactivateRevision rg app target \<in> set (calls (main client taskParams))
      \<and> (failed (main client taskParams) = Some DeactivationNotConfirmed) =
          (\<exists>r. containerAppsRevisions_deactivateRevision client rg app target = Inr ()
               \<and> containerAppsRevisions_getRevision client rg app target = Inr (Some r)
               \<and> active r = Some True)
      \<and> (containerAppsRevisions_deactivateRevision client rg app target = Inr ()
           \<and> containerAppsRevisions_getRevision client rg app target = Inr (Some revision)
           \<and> active revision \<noteq> Some True
         \<longrightarrow> failed (main client taskParams) = None)"
    if mode: "deactivateRevisionMode taskParams"
      and len: "length (revisionName_of taskParams) \<le> 63"
      and got: "containerApps_get client (resourceGroup taskParams)
                  (containerAppName taskParams) = Inr (snapshot, h)"
      and eqs: "traffics = map h (traffic_or_empty snapshot)"
               "target = revisionName_of taskParams"
               "rg = resourceGroup taskParams" "app = containerAppName taskParams"
  proof -
    obtain r l where D: "?D [Get rg app] = (r, l)"
      by (cases "?D [Get rg app]")
    have f: "failed (main client taskParams) = (case r of Inl e \<Rightarrow> Some e | Inr u \<Rightarrow> None)"
      and c: "calls (main client taskParams) = l"
      using main_deactivation_mode [OF mode len got, of r l] D eqs by simp_all
    have "DeactivateRevision rg app target \<in> set l"
      using issued [of "[Get rg app]"] D by simp
    moreover have "(r = Inl DeactivationNotConfirmed) =
        (\<exists>r. containerAppsRevisions_deactivateRevision client rg app target = Inr ()
             \<and> containerAppsRevisions_getRevision client rg app target = Inr (Some r)
             \<and> active r = Some True)"
      using unconfirmed [of "[Get rg app]"] D by simp
    moreover have "r = Inr ()"
      if "containerAppsRevisions_deactivateRevision client rg app target = Inr ()"
        and "containerAppsRevisions_getRevision client rg app target = Inr (Some revision)"
        and "active revision \<noteq> Some True"
      using returned [OF that(1,2), of "[Get rg app]"] that(3) D by simp
    ultimately show ?thesis
      unfolding f c by (cases r) auto
  qed
  show ?thesis
    using issued [of log] unconfirmed [of log] returned [of log] whole_run
    by (intro conjI impI) blast+
qed

theorem zero_weight_deactivates_then_confirms_witness:
  "total_weight (filter (\<lambda>r. revisionName r = Some (ascii ''app--abc123''))
                   (map idle_heap [0, 1])) = 0
   \<and> failed (main (mock_client two_entry_app idle_heap inactive_revision) deactivate_params)
       = None
   \<and> calls (main (mock_client two_entry_app idle_heap inactive_revision) deactivate_params)
       = [Get (ascii ''rg'') (ascii ''app''),
          DeactivateRevision (ascii ''rg'') (ascii ''app'') (ascii ''app--abc123''),
          GetRevision (ascii ''rg'') (ascii ''app'') (ascii ''app--abc123'')]
   \<and> failed (main (mock_client two_entry_app idle_heap active_revision) deactivate_params)
       = Some DeactivationNotConfirmed
   \<and> filter (\<lambda>r. revisionName r = Some (ascii ''app--abc123'')) (map dup_heap [0, 1]) = []
   \<and> failed (main (mock_client two_entry_app dup_heap inactive_revision) deactivate_params)
       = None
   \<and> calls (main (mock_client two_entry_app dup_heap inactive_revision) deactivate_params)
       = [Get (ascii ''rg'') (ascii ''app''),
          DeactivateRevision (ascii ''rg'') (ascii ''app'') (ascii ''app--abc123''),
          GetRevision (ascii ''rg'') (ascii ''app'') (ascii ''app--abc123'')]"
  using zero_weight_deactivates_then_confirms
          [where traffics = "map idle_heap [0, 1]" and target = "ascii ''app--abc123''"
             and client = "mock_client two_entry_app idle_heap inactive_revision"
             and rg = "ascii ''rg''" and app = "ascii ''app''" and log = "[]"
             and revision = inactive_revision and taskParams = deactivate_params
             and snapshot = two_entry_app and h = idle_heap]
        zero_weight_deactivates_then_confirms
          [where traffics = "map idle_heap [0, 1]" and target = "ascii ''app--abc123''"
             and client = "mock_client two_entry_app idle_heap active_revision"
             and rg = "ascii ''rg''" and app = "ascii ''app''" and log = "[]"
             and revision = active_revision and taskParams = deactivate_params
             and snapshot = two_entry_app and h = idle_heap]
        zero_weight_deactivates_then_confirms
          [where traffics = "map dup_heap [0, 1]" and target = "ascii ''app--abc123''"
             and client = "mock_client two_entry_app dup_heap inactive_revision"
             and rg = "ascii ''rg''" and app = "ascii ''app''" and log = "[]"
             and revision = inactive_revision and taskParams = deactivate_params
             and snapshot = two_entry_app and h = dup_heap]
  by (simp add: total_weight_def idle_heap_def dup_heap_def blank_def deactivate_params_def
      mock_client_def two_entry_app_def ex_app_def ex_configuration_def ex_ingress_def
      traffic_or_empty_def revisionName_of_def ascii_def active_revision_def
      inactive_revision_def main_def MAX_REVISION_NAME_LENGTH_def deactivateRevision_def
      weight_sum_def js_add_def round_to_double_def Let_def)

text \<open>
  C10. For every traffic list with an entry named as the target whose weight is unset, the
  validator fails with \<open>UnsafeDeactivation\<close> and makes no call, whatever the weights of the
  other entries: the sum of line 160 is then \<open>NaN\<close>, which is not 0. In deactivation
  mode the run fails with that error after the get.
\<close>

theorem unset_weight_refuses_deactivation:
  assumes "\<exists>t \<in> set traffics. revisionName t = Some target \<and> weight t = None"
  shows "deactivateRevision client rg app traffics target log = (Inl UnsafeDeactivation, log)
         \<and> (deactivateRevisionMode taskParams
              \<and> length (revisionName_of taskParams) \<le> 63
              \<and> containerApps_get client (resourceGroup taskParams)
                    (containerAppName taskParams) = Inr (snapshot, h)
              \<and> traffics = map h (traffic_or_empty snapshot)
              \<and> target = revisionName_of taskParams
            \<longrightarrow> failed (main client taskParams) = Some UnsafeDeactivation
                \<and> calls (main client taskParams)
                    = [Get (resourceGroup taskParams) (containerAppName taskParams)])"
proof -
  from assms obtain t where "t \<in> set (filter (\<lambda>r. revisionName r = Some target) traffics)"
    and "weight t = None"
    by auto
  then have sum: "weight_sum (filter (\<lambda>r. revisionName r = Some target) traffics) \<noteq> Num 0"
    by (rule weight_sum_NaN_if_unset)
  show ?thesis
    using deactivateRevision_refuses [OF sum] main_refuses sum by blast
qed

theorem unset_weight_refuses_deactivation_witness:
  "weight (unset_heap 0) = None
   \<and> revisionName (unset_heap 0) = Some (ascii ''app--abc123'')
   \<and> deactivateRevision (mock_client two_entry_app unset_heap inactive_revision)
        (ascii ''rg'') (ascii ''app'') (map unset_heap [0, 1]) (ascii ''app--abc123'') []
       = (Inl UnsafeDeactivation, [])
   \<and> failed (main (mock_client two_entry_app unset_heap inactive_revision) deactivate_params)
       = Some UnsafeDeactivation
   \<and> calls (main (mock_client two_entry_app unset_heap inactive_revision) deactivate_params)
       = [Get (ascii ''rg'') (ascii ''app'')]"
  using unset_weight_refuses_deactivation
          [where traffics = "map unset_heap [0, 1]" and target = "ascii ''app--abc123''"
             and client = "mock_client two_entry_app unset_heap inactive_revision"
             and rg = "ascii ''rg''" and app = "ascii ''app''" and log = "[]"
             and taskParams = deactivate_params and snapshot = two_entry_app
             and h = unset_heap]
  by (simp add: unset_heap_def blank_def deactivate_params_def mock_client_def
      two_entry_app_def ex_app_def ex_configuration_def ex_ingress_def traffic_or_empty_def
      revisionName_of_def ascii_def)

end
